theory Spec2Isabelle
  imports Main "HOL-Library.Sublist" "HOL-Library.AList"
begin

section \<open>Values, property keys and the object store\<close>

text \<open>
  An embedding of \<^verbatim>\<open>src/index.ts\<close>: the static methods of \<open>JsonMasonUtils\<close> and the class
  \<open>JsonMason\<close>. The library edits JavaScript values in place on a private copy, and
  several of its guarantees are about object identity. Objects therefore live in an
  explicit store: a value is a primitive or a reference to a store cell. A cell is
  allocated at the end of the store, so an address is never reused.

  The library reaches properties with \<open>key in current\<close>, \<open>current[key]\<close> and
  \<open>current[key] = value\<close>, which see the prototype chain. A cell therefore has a kind
  (plain object, array, function), a prototype, and its own properties, each a data
  property with its attributes or an accessor. The objects of the host (the prototype
  objects and the built-in functions) are cells of the same store, at the addresses
  below \<open>host_size\<close>; every other cell is a data cell. The built-in accessors that a path
  can reach are the pair behind \<open>__proto__\<close> and the accessors that throw on every use
  (\<open>caller\<close> and \<open>arguments\<close> of functions).

  A path key (\<open>string | number\<close>) is a \<open>key\<close>; the property it selects is a \<open>pkey\<close>: an
  array index, a name, or the symbol \<open>Symbol.iterator\<close>, which no path key selects.
  Number values and number path keys are integers. Every function that can throw
  returns the error as a value together with the store at the time of the throw. What
  only the host decides is a parameter, the record \<open>host\<close>: the message text of the
  errors the host raises, and the conversion to a number of a value that is not a
  number, needed when such a value is assigned to the length of an array.
\<close>

datatype key = KStr string | KNum int

datatype pkey = PIdx nat | PName string | PIterator

type_synonym addr = nat

datatype val = VUndefined | VNull | VBool bool | VNum int | VStr string | VRef addr

datatype kind = Plain | Array | Function

datatype accessor = ProtoAccessor | Poison

datatype slot =
  Data (held: val) (writable: bool) (enumerable: bool) (configurable: bool)
| Accessor accessor bool

datatype obj = Obj (kind: kind) (proto: val) (alen: nat) (props: "(pkey \<times> slot) list")

type_synonym heap = "obj list"

datatype jstype = TyUndefined | TyObject | TyFunction | TyBoolean | TyNumber | TyString

datatype host_fault =
  InOperator pkey val
| GetProperty pkey val
| SetProperty pkey val
| DeleteProperty pkey val
| InvalidLength val
| NotCallable pkey val
| NotIterable val
| NotConstructor val
| OtherFunction pkey val

text \<open>\<open>Error\<close> is an error that the library creates with \<open>new Error\<close>; \<open>TypeError\<close> and
  \<open>RangeError\<close> are raised by the host. \<open>Unmodelled\<close> marks the one place where the
  embedding stops: a method call that finds a function other than the built-in one
  (the library itself never stores a function).\<close>

datatype error = Error string | TypeError host_fault | RangeError host_fault
  | Unmodelled host_fault

record host =
  fault_text :: "error \<Rightarrow> string"
  number_of :: "heap \<Rightarrow> val \<Rightarrow> host_fault + int option"

subsection \<open>Number to string conversion and property keys\<close>

text \<open>\<open>String(n)\<close> for an integer \<open>n\<close>, as used by \<open>path.join(".")\<close>, by template
  literals and by property access with a number key.\<close>

definition digit_char :: "nat \<Rightarrow> char" where
  "digit_char d = ''0123456789'' ! d"

fun show_nat :: "nat \<Rightarrow> string" where
  "show_nat n = (if n < 10 then [digit_char n] else show_nat (n div 10) @ [digit_char (n mod 10)])"

declare show_nat.simps [simp del]

definition show_int :: "int \<Rightarrow> string" where
  "show_int i = (if i < 0 then CHR ''-'' # show_nat (nat (- i)) else show_nat (nat i))"

definition is_digit :: "char \<Rightarrow> bool" where
  "is_digit c = (c \<in> set ''0123456789'')"

definition digit_val :: "char \<Rightarrow> nat" where
  "digit_val c = of_char c - 48"

definition parse_nat :: "string \<Rightarrow> nat" where
  "parse_nat s = foldl (\<lambda>n c. 10 * n + digit_val c) 0 s"

text \<open>A string is an array index when it is the canonical decimal form of an integer
  below \<open>2^32 - 1\<close>.\<close>

definition parse_index :: "string \<Rightarrow> nat option" where
  "parse_index s =
     (if s \<noteq> [] \<and> list_all is_digit s \<and> (s = ''0'' \<or> hd s \<noteq> CHR ''0'')
         \<and> parse_nat s < 4294967295
      then Some (parse_nat s) else None)"

fun to_pkey :: "key \<Rightarrow> pkey" where
  "to_pkey (KNum n) = (if 0 \<le> n \<and> n < 4294967295 then PIdx (nat n) else PName (show_int n))"
| "to_pkey (KStr s) = (case parse_index s of Some i \<Rightarrow> PIdx i | None \<Rightarrow> PName s)"

text \<open>\<open>path.join(".")\<close>.\<close>

fun key_text :: "key \<Rightarrow> string" where
  "key_text (KStr s) = s"
| "key_text (KNum n) = show_int n"

fun join :: "string \<Rightarrow> string list \<Rightarrow> string" where
  "join sep [] = []"
| "join sep [x] = x"
| "join sep (x # y # ys) = x @ sep @ join sep (y # ys)"

definition path_text :: "key list \<Rightarrow> string" where
  "path_text p = join ''.'' (map key_text p)"

subsection \<open>The objects of the host\<close>

text \<open>The addresses of the host objects that the semantics of the language refers to:
  the prototypes given to new objects and arrays and used for primitive values, and the
  two built-in functions that the library calls through a property of a document node
  (\<open>target.splice\<close>, and the iterator of an array in \<open>[...current, value]\<close>). The cells
  below \<open>host_size\<close> are the host's.\<close>

definition object_proto :: addr where "object_proto = 0"
definition array_proto :: addr where "array_proto = 1"
definition function_proto :: addr where "function_proto = 2"
definition string_proto :: addr where "string_proto = 3"
definition number_proto :: addr where "number_proto = 4"
definition boolean_proto :: addr where "boolean_proto = 5"
definition array_splice :: addr where "array_splice = 6"
definition array_values :: addr where "array_values = 7"
definition host_size :: nat where "host_size = 16"

subsection \<open>Host operations on values\<close>

text \<open>The cell at an address; an address outside the store reads as an empty object
  without a prototype, so that every function is total (a well-formed store has no
  such reference).\<close>

definition deref :: "heap \<Rightarrow> addr \<Rightarrow> obj" where
  "deref h a = (if a < length h then h ! a else Obj Plain VNull 0 [])"

fun typeof :: "heap \<Rightarrow> val \<Rightarrow> jstype" where
  "typeof h VUndefined = TyUndefined"
| "typeof h VNull = TyObject"
| "typeof h (VBool b) = TyBoolean"
| "typeof h (VNum n) = TyNumber"
| "typeof h (VStr s) = TyString"
| "typeof h (VRef a) = (if kind (deref h a) = Function then TyFunction else TyObject)"

fun isArray :: "heap \<Rightarrow> val \<Rightarrow> bool" where
  "isArray h (VRef a) = (kind (deref h a) = Array)"
| "isArray h v = False"

fun callable :: "heap \<Rightarrow> val \<Rightarrow> bool" where
  "callable h (VRef a) = (kind (deref h a) = Function)"
| "callable h v = False"

fun is_object :: "val \<Rightarrow> bool" where
  "is_object (VRef a) = True"
| "is_object v = False"

definition nullish :: "val \<Rightarrow> bool" where
  "nullish v = (v = VNull \<or> v = VUndefined)"

text \<open>The own property of a cell under a key. The \<open>length\<close> of an array is an own data
  property that is writable, not enumerable and not configurable; its value is kept in
  the field \<open>alen\<close>.\<close>

definition own :: "obj \<Rightarrow> pkey \<Rightarrow> slot option" where
  "own ob pk =
     (if kind ob = Array \<and> pk = PName ''length''
      then Some (Data (VNum (int (alen ob))) True False False)
      else map_of (props ob) pk)"

text \<open>The own properties of a string value: its characters and its length, all read-only.
  Numbers and booleans have none.\<close>

fun own_prim :: "val \<Rightarrow> pkey \<Rightarrow> slot option" where
  "own_prim (VStr s) (PIdx i) =
     (if i < length s then Some (Data (VStr [s ! i]) False True False) else None)"
| "own_prim (VStr s) (PName x) =
     (if x = ''length'' then Some (Data (VNum (int (length s))) False False False) else None)"
| "own_prim v pk = None"

text \<open>The prototype of a value: of an object its own, of a primitive that of its
  wrapper.\<close>

fun proto_of :: "heap \<Rightarrow> val \<Rightarrow> val" where
  "proto_of h (VRef a) = proto (deref h a)"
| "proto_of h (VStr s) = VRef string_proto"
| "proto_of h (VNum n) = VRef number_proto"
| "proto_of h (VBool b) = VRef boolean_proto"
| "proto_of h v = VNull"

text \<open>The search for a property along the prototype chain, from the object \<open>v\<close> upwards.
  The host keeps prototype chains free of cycles, so a chain has at most as many cells
  as the store; the search gives up after that many steps.\<close>

fun find_slot :: "nat \<Rightarrow> heap \<Rightarrow> val \<Rightarrow> pkey \<Rightarrow> slot option" where
  "find_slot 0 h v pk = None"
| "find_slot (Suc n) h v pk =
     (case v of
        VRef a \<Rightarrow> (case own (deref h a) pk of
                     Some s \<Rightarrow> Some s
                   | None \<Rightarrow> find_slot n h (proto (deref h a)) pk)
      | _ \<Rightarrow> None)"

definition slot_of :: "heap \<Rightarrow> val \<Rightarrow> pkey \<Rightarrow> slot option" where
  "slot_of h v pk =
     (if is_object v then find_slot (Suc (length h)) h v pk
      else (case own_prim v pk of
              Some s \<Rightarrow> Some s
            | None \<Rightarrow> find_slot (Suc (length h)) h (proto_of h v) pk))"

text \<open>\<open>key in current\<close>: a TypeError unless \<open>current\<close> is an object; otherwise whether
  the object or one of its prototypes has the property.\<close>

definition has_property :: "heap \<Rightarrow> val \<Rightarrow> pkey \<Rightarrow> error + bool" where
  "has_property h v pk =
     (if is_object v then Inr (slot_of h v pk \<noteq> None) else Inl (TypeError (InOperator pk v)))"

definition js_in :: "heap \<Rightarrow> key \<Rightarrow> val \<Rightarrow> error + bool" where
  "js_in h k v = has_property h v (to_pkey k)"

text \<open>\<open>current[key]\<close> as a read: a TypeError on null and undefined; the value of the data
  property found, undefined when none is found; the getter of \<open>__proto__\<close> returns the
  prototype of the value read from.\<close>

definition get_prop :: "heap \<Rightarrow> val \<Rightarrow> pkey \<Rightarrow> error + val" where
  "get_prop h v pk =
     (if nullish v then Inl (TypeError (GetProperty pk v))
      else (case slot_of h v pk of
              None \<Rightarrow> Inr VUndefined
            | Some (Data x w e c) \<Rightarrow> Inr x
            | Some (Accessor ProtoAccessor c) \<Rightarrow> Inr (proto_of h v)
            | Some (Accessor Poison c) \<Rightarrow> Inl (TypeError (GetProperty pk v))))"

definition js_get :: "heap \<Rightarrow> val \<Rightarrow> key \<Rightarrow> error + val" where
  "js_get h v k = get_prop h v (to_pkey k)"

text \<open>Defining a data property on a cell: the value of an existing own data property is
  replaced and its attributes are kept; a new property is writable, enumerable and
  configurable. On an array, an index at or past the length extends the length,
  leaving holes below it.\<close>

definition put_prop :: "obj \<Rightarrow> pkey \<Rightarrow> val \<Rightarrow> obj" where
  "put_prop ob pk v =
     Obj (kind ob) (proto ob)
         (case pk of PIdx i \<Rightarrow> if kind ob = Array then max (alen ob) (Suc i) else alen ob
          | _ \<Rightarrow> alen ob)
         (AList.update pk
            (case map_of (props ob) pk of
               Some (Data x w e c) \<Rightarrow> Data v w e c
             | _ \<Rightarrow> Data v True True True)
            (props ob))"

text \<open>Assigning to the length of an array. A number that is not an integer from \<open>0\<close> to
  \<open>2^32 - 1\<close> is a RangeError; the number of another value is the host's. The elements
  at and above the new length are deleted from the top; an element that is not
  configurable stops the deletion, and the assignment fails with the length just above
  that element.\<close>

definition stays :: "nat \<Rightarrow> pkey \<times> slot \<Rightarrow> bool" where
  "stays n p = (case fst p of PIdx i \<Rightarrow> i < n | _ \<Rightarrow> True)"

fun deletable :: "slot \<Rightarrow> bool" where
  "deletable (Data x w e c) = c"
| "deletable (Accessor acc c) = c"

definition blockers :: "nat \<Rightarrow> (pkey \<times> slot) list \<Rightarrow> nat list" where
  "blockers n ps =
     concat (map (\<lambda>p. case fst p of PIdx i \<Rightarrow> if n \<le> i \<and> \<not> deletable (snd p) then [i] else []
                        | _ \<Rightarrow> []) ps)"

definition cut_length :: "heap \<Rightarrow> addr \<Rightarrow> nat \<Rightarrow> error option \<times> heap" where
  "cut_length h a n =
     (let ob = deref h a; bs = blockers n (props ob)
      in if bs = [] then (None, h[a := Obj (kind ob) (proto ob) n (filter (stays n) (props ob))])
         else (Some (TypeError (DeleteProperty (PIdx (Max (set bs))) (VRef a))),
               h[a := Obj (kind ob) (proto ob) (Suc (Max (set bs)))
                          (filter (stays (Suc (Max (set bs)))) (props ob))]))"

definition set_length :: "host \<Rightarrow> heap \<Rightarrow> addr \<Rightarrow> val \<Rightarrow> error option \<times> heap" where
  "set_length host h a v =
     (case (case v of VNum n \<Rightarrow> Inr (Some n) | _ \<Rightarrow> number_of host h v) of
        Inl f \<Rightarrow> (Some (TypeError f), h)
      | Inr None \<Rightarrow> (Some (RangeError (InvalidLength v)), h)
      | Inr (Some n) \<Rightarrow>
          if n < 0 \<or> 4294967295 < n then (Some (RangeError (InvalidLength v)), h)
          else cut_length h a (nat n))"

definition define_own :: "host \<Rightarrow> heap \<Rightarrow> addr \<Rightarrow> pkey \<Rightarrow> val \<Rightarrow> error option \<times> heap" where
  "define_own host h a pk v =
     (if kind (deref h a) = Array \<and> pk = PName ''length'' then set_length host h a v
      else (None, h[a := put_prop (deref h a) pk v]))"

text \<open>The setter of \<open>__proto__\<close>: nothing happens unless the new prototype is an object or
  null and the receiver is an object. The prototype of \<open>Object.prototype\<close> cannot be
  changed, and a change that would close a cycle is refused; both are TypeErrors.\<close>

fun on_chain :: "nat \<Rightarrow> heap \<Rightarrow> val \<Rightarrow> addr \<Rightarrow> bool" where
  "on_chain 0 h v a = False"
| "on_chain (Suc n) h v a =
     (case v of VRef b \<Rightarrow> b = a \<or> on_chain n h (proto (deref h b)) a | _ \<Rightarrow> False)"

definition set_proto :: "heap \<Rightarrow> addr \<Rightarrow> val \<Rightarrow> error option \<times> heap" where
  "set_proto h a v =
     (let ob = deref h a
      in if v = proto ob then (None, h)
         else if a = object_proto \<or> on_chain (Suc (length h)) h v a
         then (Some (TypeError (SetProperty (PName ''__proto__'') (VRef a))), h)
         else (None, h[a := Obj (kind ob) v (alen ob) (props ob)]))"

fun call_setter :: "accessor \<Rightarrow> heap \<Rightarrow> val \<Rightarrow> pkey \<Rightarrow> val \<Rightarrow> error option \<times> heap" where
  "call_setter Poison h cur pk v = (Some (TypeError (SetProperty pk cur)), h)"
| "call_setter ProtoAccessor h (VRef a) pk v =
     (if is_object v \<or> v = VNull then set_proto h a v else (None, h))"
| "call_setter ProtoAccessor h cur pk v = (None, h)"

text \<open>\<open>current[key] = value\<close> in strict-mode code (a module and a class body). On a
  primitive it is a TypeError unless the key names a setter. On an object, a setter
  found on the chain is called, a read-only data property found on the chain is a
  TypeError, and otherwise the property is defined on the object itself.\<close>

definition set_prop :: "host \<Rightarrow> heap \<Rightarrow> val \<Rightarrow> pkey \<Rightarrow> val \<Rightarrow> error option \<times> heap" where
  "set_prop host h cur pk v =
     (if nullish cur then (Some (TypeError (SetProperty pk cur)), h)
      else (case slot_of h cur pk of
              Some (Accessor acc c) \<Rightarrow> call_setter acc h cur pk v
            | Some (Data x w e c) \<Rightarrow>
                (case cur of
                   VRef a \<Rightarrow> if w then define_own host h a pk v
                             else (Some (TypeError (SetProperty pk cur)), h)
                 | _ \<Rightarrow> (Some (TypeError (SetProperty pk cur)), h))
            | None \<Rightarrow>
                (case cur of
                   VRef a \<Rightarrow> define_own host h a pk v
                 | _ \<Rightarrow> (Some (TypeError (SetProperty pk cur)), h))))"

definition js_set :: "host \<Rightarrow> heap \<Rightarrow> val \<Rightarrow> key \<Rightarrow> val \<Rightarrow> error option \<times> heap" where
  "js_set host h cur k v = set_prop host h cur (to_pkey k) v"

text \<open>\<open>delete target[key]\<close> in strict-mode code: an own property is removed when it is
  configurable, a TypeError otherwise; nothing happens when the object has no such own
  property.\<close>

definition delete_own :: "heap \<Rightarrow> addr \<Rightarrow> pkey \<Rightarrow> error option \<times> heap" where
  "delete_own h a pk =
     (let ob = deref h a
      in (case own ob pk of
            None \<Rightarrow> (None, h)
          | Some s \<Rightarrow>
              if deletable s
              then (None, h[a := Obj (kind ob) (proto ob) (alen ob) (AList.delete pk (props ob))])
              else (Some (TypeError (DeleteProperty pk (VRef a))), h)))"

text \<open>\<open>typeof nextKey === "number" ? [] : {}\<close>.\<close>

definition new_container :: "key \<Rightarrow> obj" where
  "new_container nextKey =
     (case nextKey of KNum n \<Rightarrow> Obj Array (VRef array_proto) 0 []
      | KStr s \<Rightarrow> Obj Plain (VRef object_proto) 0 [])"

subsection \<open>JsonMasonUtils\<close>

text \<open>\<open>clone\<close> is \<open>structuredClone\<close>, which copies the object graph of a value, keeping
  sharing and cycles, into new cells: a copy has the standard prototype of its kind and
  the enumerable own data properties under string keys of the original, each freshly
  writable, enumerable and configurable. In the model the copy of the data cell at
  address \<open>a\<close> is the new cell at address \<open>a + n\<close>, where \<open>n\<close> is the number of data
  cells, with every reference to a data cell inside it moved the same way. Data cells
  that the value does not reach are copied as well, which no program can observe. The
  documents and values handed to the library are data; a reference to a host object
  inside them is kept as it is.\<close>

fun shift_val :: "nat \<Rightarrow> val \<Rightarrow> val" where
  "shift_val n (VRef a) = (if a < host_size then VRef a else VRef (a + n))"
| "shift_val n v = v"

fun copied :: "pkey \<times> slot \<Rightarrow> bool" where
  "copied (k, Data v w e c) = (e \<and> k \<noteq> PIterator)"
| "copied (k, Accessor acc c) = False"

fun copy_slot :: "nat \<Rightarrow> pkey \<times> slot \<Rightarrow> pkey \<times> slot" where
  "copy_slot n (k, Data v w e c) = (k, Data (shift_val n v) True True True)"
| "copy_slot n (k, Accessor acc c) = (k, Accessor acc c)"

fun std_proto :: "kind \<Rightarrow> val" where
  "std_proto Plain = VRef object_proto"
| "std_proto Array = VRef array_proto"
| "std_proto Function = VRef function_proto"

definition copy_obj :: "nat \<Rightarrow> obj \<Rightarrow> obj" where
  "copy_obj n ob =
     Obj (kind ob) (std_proto (kind ob)) (alen ob) (map (copy_slot n) (filter copied (props ob)))"

definition clone :: "heap \<Rightarrow> val \<Rightarrow> val \<times> heap" where
  "clone h v =
     (shift_val (length h - host_size) v,
      h @ map (copy_obj (length h - host_size)) (drop host_size h))"

text \<open>\<open>get\<close> (lines 95 to 104): absence ends the walk with \<open>undefined\<close>.\<close>

fun get :: "heap \<Rightarrow> val \<Rightarrow> key list \<Rightarrow> error + val" where
  "get h current [] = Inr current"
| "get h current (k # ks) =
     (if nullish current then Inr VUndefined
      else (case js_get h current k of
              Inl e \<Rightarrow> Inl e
            | Inr x \<Rightarrow> get h x ks))"

text \<open>\<open>set\<close> (lines 117 to 137), named \<open>set_at\<close> here. \<open>set_loop\<close> is its loop, which
  runs over the keys but the last and returns the final \<open>current\<close>; the new container
  is allocated before it is assigned.\<close>

fun set_loop :: "host \<Rightarrow> heap \<Rightarrow> val \<Rightarrow> key list \<Rightarrow> (error + val) \<times> heap" where
  "set_loop host h current (k # nextKey # ks) =
     (case js_in h k current of
        Inl e \<Rightarrow> (Inl e, h)
      | Inr present \<Rightarrow>
          (case (if present then (None, h)
                 else js_set host (h @ [new_container nextKey]) current k (VRef (length h))) of
             (Some e, h') \<Rightarrow> (Inl e, h')
           | (None, h') \<Rightarrow>
               (case js_get h' current k of
                  Inl e \<Rightarrow> (Inl e, h')
                | Inr x \<Rightarrow> set_loop host h' x (nextKey # ks))))"
| "set_loop host h current ks = (Inr current, h)"

definition set_at :: "host \<Rightarrow> heap \<Rightarrow> val \<Rightarrow> key list \<Rightarrow> val \<Rightarrow> (error + val) \<times> heap" where
  "set_at host h ob p v =
     (if p = [] then (Inr v, h)
      else (case clone h ob of
              (result, h1) \<Rightarrow>
                (case set_loop host h1 result p of
                   (Inl e, h2) \<Rightarrow> (Inl e, h2)
                 | (Inr current, h2) \<Rightarrow>
                     (case js_set host h2 current (last p) v of
                        (Some e, h3) \<Rightarrow> (Inl e, h3)
                      | (None, h3) \<Rightarrow> (Inr result, h3)))))"

text \<open>The validators (lines 150 to 201) and their messages.\<close>

definition not_array_msg :: "key list \<Rightarrow> string" where
  "not_array_msg p = ''Target at path '' @ path_text p @ '' is not an array''"

definition not_string_msg :: "key list \<Rightarrow> string" where
  "not_string_msg p = ''Target at path '' @ path_text p @ '' is not a string''"

definition not_appendable_msg :: "key list \<Rightarrow> string" where
  "not_appendable_msg p = ''Target at path '' @ path_text p @ '' is not an array or string''"

definition validateArray :: "heap \<Rightarrow> val \<Rightarrow> key list \<Rightarrow> error option" where
  "validateArray h v p = (if \<not> isArray h v then Some (Error (not_array_msg p)) else None)"

definition validateString :: "heap \<Rightarrow> val \<Rightarrow> key list \<Rightarrow> error option" where
  "validateString h v p =
     (if typeof h v \<noteq> TyString then Some (Error (not_string_msg p)) else None)"

definition validateAppendable :: "heap \<Rightarrow> val \<Rightarrow> key list \<Rightarrow> error option" where
  "validateAppendable h v p =
     (if \<not> isArray h v \<and> typeof h v \<noteq> TyString then Some (Error (not_appendable_msg p))
      else None)"

subsection \<open>JsonMason\<close>

text \<open>An operation whose action is none of the four of the type \<open>Operation\<close> reaches the
  \<open>default\<close> branch of \<open>executeOperation\<close>; \<open>Other\<close> stands for such an action. The value
  of a delete operation is ignored. The state of a \<open>JsonMason\<close> is its \<open>errors\<close> field.\<close>

datatype action = Set | Delete | Append | Prepend | Other string

record operation =
  op_path :: "key list"
  op_action :: action
  op_value :: val

record operation_error =
  index :: nat
  operation :: operation
  reason :: string

record config =
  strict :: "bool option"

record mason =
  errors :: "operation_error list"

text \<open>The messages of \<open>executeOperation\<close>.\<close>

definition root_deletion_msg :: string where
  "root_deletion_msg = ''Cannot delete root object''"

definition missing_parent_msg :: "key list \<Rightarrow> string" where
  "missing_parent_msg parentPath = ''Parent path '' @ path_text parentPath @ '' does not exist''"

definition invalid_index_msg :: "string \<Rightarrow> string" where
  "invalid_index_msg k = ''Invalid array index: '' @ k"

definition non_object_msg :: "key list \<Rightarrow> string" where
  "non_object_msg parentPath = ''Cannot delete from non-object at '' @ path_text parentPath"

definition type_mismatch_msg :: string where
  "type_mismatch_msg = ''Can only append/prepend strings to strings''"

definition unknown_operation_msg :: "string \<Rightarrow> string" where
  "unknown_operation_msg a = ''Unknown operation: '' @ a"

text \<open>\<open>Array.prototype.splice\<close> called with a start and the delete count 1 on an array.
  A negative start counts from the end, a start at or past the end removes nothing.
  The function asks the \<open>constructor\<close> property of the array what kind of array to
  return (a primitive other than undefined there is a TypeError), reads the element
  it removes, moves each element above it one index down (deleting the target index
  where the source index has no property, own or inherited), deletes the last index and
  assigns the new length. The array of removed elements is dropped by the library and
  is not allocated here.\<close>

fun species_ok :: "val \<Rightarrow> bool" where
  "species_ok VUndefined = True"
| "species_ok (VRef a) = True"
| "species_ok v = False"

fun move_down :: "host \<Rightarrow> heap \<Rightarrow> addr \<Rightarrow> nat list \<Rightarrow> error option \<times> heap" where
  "move_down host h a [] = (None, h)"
| "move_down host h a (k # ks) =
     (case (if slot_of h (VRef a) (PIdx (Suc k)) \<noteq> None
            then (case get_prop h (VRef a) (PIdx (Suc k)) of
                    Inl e \<Rightarrow> (Some e, h)
                  | Inr x \<Rightarrow> set_prop host h (VRef a) (PIdx k) x)
            else delete_own h a (PIdx k)) of
        (Some e, h') \<Rightarrow> (Some e, h')
      | (None, h') \<Rightarrow> move_down host h' a ks)"

definition splice :: "host \<Rightarrow> heap \<Rightarrow> addr \<Rightarrow> int \<Rightarrow> error option \<times> heap" where
  "splice host h a n =
     (let len = alen (deref h a);
          start = (if n < 0 then nat (max (int len + n) 0) else min (nat n) len)
      in (case get_prop h (VRef a) (PName ''constructor'') of
            Inl e \<Rightarrow> (Some e, h)
          | Inr c \<Rightarrow>
              if \<not> species_ok c then (Some (TypeError (NotConstructor c)), h)
              else if len \<le> start then set_prop host h (VRef a) (PName ''length'') (VNum (int len))
              else (case (if slot_of h (VRef a) (PIdx start) \<noteq> None
                          then get_prop h (VRef a) (PIdx start) else Inr VUndefined) of
                      Inl e \<Rightarrow> (Some e, h)
                    | Inr removed \<Rightarrow>
                        (case move_down host h a [start..<len - 1] of
                           (Some e, h') \<Rightarrow> (Some e, h')
                         | (None, h') \<Rightarrow>
                             (case delete_own h' a (PIdx (len - 1)) of
                                (Some e, h'') \<Rightarrow> (Some e, h'')
                              | (None, h'') \<Rightarrow>
                                  set_prop host h'' (VRef a) (PName ''length'')
                                    (VNum (int (len - 1))))))))"

text \<open>\<open>target.splice(key, 1)\<close>: the method is read from the array like any property.\<close>

definition splice_call :: "host \<Rightarrow> heap \<Rightarrow> val \<Rightarrow> int \<Rightarrow> error option \<times> heap" where
  "splice_call host h target n =
     (case get_prop h target (PName ''splice'') of
        Inl e \<Rightarrow> (Some e, h)
      | Inr f \<Rightarrow>
          if \<not> callable h f then (Some (TypeError (NotCallable (PName ''splice'') f)), h)
          else if f \<noteq> VRef array_splice
          then (Some (Unmodelled (OtherFunction (PName ''splice'') f)), h)
          else (case target of VRef a \<Rightarrow> splice host h a n | _ \<Rightarrow> (None, h)))"

text \<open>\<open>delete target[key]\<close> on a value that is an object.\<close>

fun js_delete :: "heap \<Rightarrow> val \<Rightarrow> key \<Rightarrow> error option \<times> heap" where
  "js_delete h (VRef a) k = delete_own h a (to_pkey k)"
| "js_delete h v k = (None, h)"

text \<open>The case \<open>"delete"\<close> of \<open>executeOperation\<close> (lines 286 to 319).\<close>

definition delete_op :: "host \<Rightarrow> heap \<Rightarrow> val \<Rightarrow> key list \<Rightarrow> (error + val) \<times> heap" where
  "delete_op host h source p =
     (if p = [] then (Inl (Error root_deletion_msg), h)
      else (case clone h source of
              (result, h1) \<Rightarrow>
                (let parentPath = butlast p
                 in (case (if parentPath = [] then Inr result else get h1 result parentPath) of
                       Inl e \<Rightarrow> (Inl e, h1)
                     | Inr target \<Rightarrow>
                         if nullish target then (Inl (Error (missing_parent_msg parentPath)), h1)
                         else if isArray h1 target
                         then (case last p of
                                 KNum n \<Rightarrow>
                                   (case splice_call host h1 target n of
                                      (Some e, h2) \<Rightarrow> (Inl e, h2)
                                    | (None, h2) \<Rightarrow> (Inr result, h2))
                               | KStr s \<Rightarrow> (Inl (Error (invalid_index_msg s)), h1))
                         else if typeof h1 target = TyObject
                         then (case js_delete h1 target (last p) of
                                 (Some e, h2) \<Rightarrow> (Inl e, h2)
                               | (None, h2) \<Rightarrow> (Inr result, h2))
                         else (Inl (Error (non_object_msg parentPath)), h1)))))"

text \<open>The cases \<open>"append"\<close> and \<open>"prepend"\<close> of \<open>executeOperation\<close> (lines 321 to 339):
  \<open>current + value\<close> on strings, and on arrays the array literals
  \<open>[...current, value]\<close> and \<open>[value, ...current]\<close>, each a new cell. The spread reads
  the iterator method from the array like any property, and the built-in iterator
  reads the indices below the length like any property; a hole reads as undefined
  unless a prototype has the index.\<close>

fun str_of :: "val \<Rightarrow> string" where
  "str_of (VStr s) = s"
| "str_of v = []"

fun read_all :: "heap \<Rightarrow> val \<Rightarrow> nat list \<Rightarrow> error + val list" where
  "read_all h cur [] = Inr []"
| "read_all h cur (i # is) =
     (case get_prop h cur (PIdx i) of
        Inl e \<Rightarrow> Inl e
      | Inr x \<Rightarrow> (case read_all h cur is of Inl e \<Rightarrow> Inl e | Inr xs \<Rightarrow> Inr (x # xs)))"

definition spread :: "heap \<Rightarrow> val \<Rightarrow> error + val list" where
  "spread h cur =
     (case get_prop h cur PIterator of
        Inl e \<Rightarrow> Inl e
      | Inr f \<Rightarrow>
          if \<not> callable h f then Inl (TypeError (NotIterable cur))
          else if f \<noteq> VRef array_values then Inl (Unmodelled (OtherFunction PIterator f))
          else (case cur of
                  VRef a \<Rightarrow> read_all h cur [0..<alen (deref h a)]
                | _ \<Rightarrow> Inr []))"

definition array_of :: "val list \<Rightarrow> obj" where
  "array_of vs =
     Obj Array (VRef array_proto) (length vs)
       (map (\<lambda>(i, v). (PIdx i, Data v True True True)) (enumerate 0 vs))"

definition append_op :: "host \<Rightarrow> bool \<Rightarrow> heap \<Rightarrow> val \<Rightarrow> key list \<Rightarrow> val
    \<Rightarrow> (error + val) \<times> heap" where
  "append_op host is_append h source p v =
     (case get h source p of
        Inl e \<Rightarrow> (Inl e, h)
      | Inr current \<Rightarrow>
          (case validateAppendable h current p of
             Some e \<Rightarrow> (Inl e, h)
           | None \<Rightarrow>
               if typeof h current = TyString
               then (if typeof h v \<noteq> TyString then (Inl (Error type_mismatch_msg), h)
                     else set_at host h source p
                            (VStr (if is_append then str_of current @ str_of v
                                   else str_of v @ str_of current)))
               else (case spread h current of
                       Inl e \<Rightarrow> (Inl e, h)
                     | Inr xs \<Rightarrow>
                         set_at host (h @ [array_of (if is_append then xs @ [v] else v # xs)])
                           source p (VRef (length h)))))"

definition executeOperation :: "host \<Rightarrow> heap \<Rightarrow> val \<Rightarrow> operation \<Rightarrow> (error + val) \<times> heap" where
  "executeOperation host h source opn =
     (case op_action opn of
        Set \<Rightarrow> set_at host h source (op_path opn) (op_value opn)
      | Delete \<Rightarrow> delete_op host h source (op_path opn)
      | Append \<Rightarrow> append_op host True h source (op_path opn) (op_value opn)
      | Prepend \<Rightarrow> append_op host False h source (op_path opn) (op_value opn)
      | Other a \<Rightarrow> (Inl (Error (unknown_operation_msg a)), h))"

text \<open>\<open>error.message\<close>: the text given to \<open>new Error\<close>, or the host's own text for an
  error that the host raised.\<close>

fun message :: "host \<Rightarrow> error \<Rightarrow> string" where
  "message host (Error s) = s"
| "message host e = fault_text host e"

text \<open>\<open>config?.strict ?? true\<close>.\<close>

definition strict_of :: "config option \<Rightarrow> bool" where
  "strict_of cfg = (case cfg of None \<Rightarrow> True
                    | Some c \<Rightarrow> (case strict c of None \<Rightarrow> True | Some b \<Rightarrow> b))"

text \<open>\<open>apply\<close> (lines 251 to 277), named \<open>apply_ops\<close> here; \<open>apply_loop\<close> is its loop from
  index \<open>i\<close> on, with the running result. A failure in strict mode throws a new error
  with the reason as its message; in non-strict mode the error is pushed and \<open>source\<close>
  itself is returned.\<close>

fun apply_loop :: "host \<Rightarrow> bool \<Rightarrow> val \<Rightarrow> nat \<Rightarrow> operation list \<Rightarrow> val
    \<Rightarrow> mason \<times> heap \<Rightarrow> (error + val) \<times> mason \<times> heap" where
  "apply_loop host str source i [] result (m, h) = (Inr result, m, h)"
| "apply_loop host str source i (opn # ops) result (m, h) =
     (case executeOperation host h result opn of
        (Inr result', h') \<Rightarrow> apply_loop host str source (Suc i) ops result' (m, h')
      | (Inl e, h') \<Rightarrow>
          (let operationError = \<lparr>index = i, operation = opn, reason = message host e\<rparr>
           in if str then (Inl (Error (reason operationError)), m, h')
              else (Inr source, m\<lparr>errors := errors m @ [operationError]\<rparr>, h')))"

definition apply_ops :: "host \<Rightarrow> mason \<times> heap \<Rightarrow> val \<Rightarrow> operation list
    \<Rightarrow> config option \<Rightarrow> (error + val) \<times> mason \<times> heap" where
  "apply_ops host st source ops cfg =
     (case st of
        (m, h) \<Rightarrow>
          (case clone h source of
             (result, h1) \<Rightarrow>
               apply_loop host (strict_of cfg) source 0 ops result (m\<lparr>errors := []\<rparr>, h1)))"

definition getErrors :: "mason \<Rightarrow> operation_error list" where
  "getErrors m = errors m"

section \<open>Vocabulary of the properties\<close>

subsection \<open>Observations of the store\<close>

text \<open>The tree seen from a value down to a given depth (\<open>TCut\<close> where the depth runs
  out): of a cell its kind, its length and its enumerable own data properties, which is
  what a document is. Two values are structurally equal when they show the same tree
  at every depth. Two values are the same reference when both are references to one
  cell; a primitive is never a reference.\<close>

datatype tree = TUndefined | TNull | TBool bool | TNum int | TStr string
  | TNode kind nat "(pkey \<times> tree) list" | TCut

fun view :: "nat \<Rightarrow> heap \<Rightarrow> val \<Rightarrow> tree" where
  "view d h VUndefined = TUndefined"
| "view d h VNull = TNull"
| "view d h (VBool b) = TBool b"
| "view d h (VNum n) = TNum n"
| "view d h (VStr s) = TStr s"
| "view 0 h (VRef a) = TCut"
| "view (Suc d) h (VRef a) =
     TNode (kind (deref h a)) (alen (deref h a))
       (map (\<lambda>p. (fst p, view d h (held (snd p)))) (filter copied (props (deref h a))))"

definition structurally_equal :: "heap \<Rightarrow> val \<Rightarrow> heap \<Rightarrow> val \<Rightarrow> bool" where
  "structurally_equal h v h' v' = (\<forall>d. view d h v = view d h' v')"

fun same_reference :: "val \<Rightarrow> val \<Rightarrow> bool" where
  "same_reference (VRef a) (VRef b) = (a = b)"
| "same_reference v w = False"

text \<open>The values held by the own data properties of a cell, and the cells reachable
  from a value through them. The prototype of a cell is not among them: the prototype
  objects belong to the host, not to a document.\<close>

definition held_vals :: "obj \<Rightarrow> val set" where
  "held_vals ob = {v. \<exists>k w e c. (k, Data v w e c) \<in> set (props ob)}"

inductive_set reach :: "heap \<Rightarrow> val \<Rightarrow> addr set" for h :: heap and v :: val where
  reach_root: "v = VRef a \<Longrightarrow> a \<in> reach h v"
| reach_step: "b \<in> reach h v \<Longrightarrow> b < length h \<Longrightarrow> VRef c \<in> held_vals (h ! b)
     \<Longrightarrow> c \<in> reach h v"

subsection \<open>Running a batch\<close>

text \<open>The operations of a list executed one after the other, each on the result of the
  one before, up to the first that fails. The operation at index \<open>k\<close> of \<open>ops\<close> is the
  first to fail when \<open>run_ops\<close> succeeds on \<open>take k ops\<close> and \<open>executeOperation\<close> fails
  on \<open>ops ! k\<close>.\<close>

fun run_ops :: "host \<Rightarrow> heap \<Rightarrow> val \<Rightarrow> operation list \<Rightarrow> (error + val) \<times> heap" where
  "run_ops host h result [] = (Inr result, h)"
| "run_ops host h result (opn # ops) =
     (case executeOperation host h result opn of
        (Inr result', h') \<Rightarrow> run_ops host h' result' ops
      | (Inl e, h') \<Rightarrow> (Inl e, h'))"

subsection \<open>Worked examples\<close>

text \<open>A part of the objects of a host: the six prototype objects, the constructors
  \<open>Object\<close>, \<open>Array\<close> and \<open>Function\<close>, and some of the built-in methods, with the
  attributes the language gives them. A full host has more methods of the same shape.
  \<open>fn name n\<close> is a built-in function with that name and number of parameters.\<close>

definition fn :: "string \<Rightarrow> int \<Rightarrow> obj" where
  "fn name n =
     Obj Function (VRef function_proto) 0
       [(PName ''name'', Data (VStr name) False False True),
        (PName ''length'', Data (VNum n) False False True)]"

definition builtin :: "string \<Rightarrow> addr \<Rightarrow> pkey \<times> slot" where
  "builtin name a = (PName name, Data (VRef a) True False True)"

definition host_objects :: heap where
  "host_objects =
     [Obj Plain VNull 0
        [builtin ''constructor'' 8, builtin ''toString'' 9, builtin ''valueOf'' 10,
         builtin ''hasOwnProperty'' 11, (PName ''__proto__'', Accessor ProtoAccessor True)],
      Obj Array (VRef object_proto) 0
        [builtin ''constructor'' 12, builtin ''splice'' array_splice,
         builtin ''values'' array_values, (PIterator, Data (VRef array_values) True False True),
         builtin ''push'' 13, builtin ''join'' 14],
      Obj Function (VRef object_proto) 0
        [builtin ''constructor'' 15,
         (PName ''name'', Data (VStr []) False False True),
         (PName ''length'', Data (VNum 0) False False True),
         (PName ''caller'', Accessor Poison True),
         (PName ''arguments'', Accessor Poison True)],
      Obj Plain (VRef object_proto) 0 [(PName ''length'', Data (VNum 0) False False False)],
      Obj Plain (VRef object_proto) 0 [],
      Obj Plain (VRef object_proto) 0 [],
      fn ''splice'' 2,
      fn ''values'' 0,
      Obj Function (VRef function_proto) 0
        [(PName ''prototype'', Data (VRef object_proto) False False False),
         (PName ''name'', Data (VStr ''Object'') False False True),
         (PName ''length'', Data (VNum 1) False False True)],
      fn ''toString'' 0,
      fn ''valueOf'' 0,
      fn ''hasOwnProperty'' 1,
      Obj Function (VRef function_proto) 0
        [(PName ''prototype'', Data (VRef array_proto) False False False),
         (PName ''name'', Data (VStr ''Array'') False False True),
         (PName ''length'', Data (VNum 1) False False True)],
      fn ''push'' 1,
      fn ''join'' 1,
      Obj Function (VRef function_proto) 0
        [(PName ''prototype'', Data (VRef function_proto) False False False),
         (PName ''name'', Data (VStr ''Function'') False False True),
         (PName ''length'', Data (VNum 1) False False True)]]"

text \<open>A map and a sequence of a document, with the standard prototypes and properties
  that are writable, enumerable and configurable.\<close>

definition field :: "string \<Rightarrow> val \<Rightarrow> pkey \<times> slot" where
  "field name v = (PName name, Data v True True True)"

definition elem :: "nat \<Rightarrow> val \<Rightarrow> pkey \<times> slot" where
  "elem i v = (PIdx i, Data v True True True)"

definition map_cell :: "(pkey \<times> slot) list \<Rightarrow> obj" where
  "map_cell ps = Obj Plain (VRef object_proto) 0 ps"

definition seq_cell :: "val list \<Rightarrow> obj" where
  "seq_cell vs = array_of vs"

text \<open>The message texts of a host, all the same here, and a host that converts no value
  to a number.\<close>

definition ex_host :: host where
  "ex_host = \<lparr>fault_text = (\<lambda>e. ''host error''), number_of = (\<lambda>h v. Inr None)\<rparr>"

text \<open>Each store holds the host objects and then its document, at address 16.
  \<open>ex_store\<close> is \<open>{items: {}, list: ["a"]}\<close>; in the batch \<open>ex_ops\<close> the operation at
  index 1 is the first to fail, since \<open>items\<close> is neither an array nor a string.\<close>

definition ex_store :: heap where
  "ex_store = host_objects @
     [map_cell [field ''items'' (VRef 17), field ''list'' (VRef 18)],
      map_cell [],
      seq_cell [VStr ''a'']]"

definition ex_ops :: "operation list" where
  "ex_ops = [\<lparr>op_path = [KStr ''list''], op_action = Append, op_value = VStr ''b''\<rparr>,
             \<lparr>op_path = [KStr ''items''], op_action = Append, op_value = VStr ''test''\<rparr>,
             \<lparr>op_path = [KStr ''list'', KNum 0], op_action = Delete, op_value = VUndefined\<rparr>]"

text \<open>A \<open>JsonMason\<close> whose error record still holds an error of an earlier call.\<close>

definition ex_mason :: mason where
  "ex_mason = \<lparr>errors = [\<lparr>index = 7, operation = ex_ops ! 0, reason = ''stale''\<rparr>]\<rparr>"

text \<open>\<open>{}\<close>, \<open>{user: {name: "John"}}\<close>, \<open>{text: "Hello"}\<close>, \<open>{items: [{id: 1}]}\<close> and
  \<open>{items: [1]}\<close>.\<close>

definition empty_store :: heap where
  "empty_store = host_objects @ [map_cell []]"

definition user_store :: heap where
  "user_store = host_objects @
     [map_cell [field ''user'' (VRef 17)],
      map_cell [field ''name'' (VStr ''John'')]]"

definition text_store :: heap where
  "text_store = host_objects @ [map_cell [field ''text'' (VStr ''Hello'')]]"

definition share_store :: heap where
  "share_store = host_objects @
     [map_cell [field ''items'' (VRef 17)],
      seq_cell [VRef 18],
      map_cell [field ''id'' (VNum 1)]]"

definition items_store :: heap where
  "items_store = host_objects @
     [map_cell [field ''items'' (VRef 17)],
      seq_cell [VNum 1]]"

text \<open>A set \<open>D\<close> of data cells is sealed in a store when no cell outside \<open>D\<close> refers into
  \<open>D\<close>, neither through a property nor as its prototype. \<open>kept D h h'\<close>: the store \<open>h'\<close>
  extends \<open>h\<close> and holds the cells of \<open>D\<close> as they are in \<open>h\<close>.\<close>

definition outside :: "addr set \<Rightarrow> val \<Rightarrow> bool" where
  "outside D v = (\<forall>a. v = VRef a \<longrightarrow> a \<notin> D)"

definition cell_vals :: "obj \<Rightarrow> val set" where
  "cell_vals ob = insert (proto ob) (held_vals ob)"

definition sealed :: "addr set \<Rightarrow> heap \<Rightarrow> bool" where
  "sealed D h =
     ((\<forall>a \<in> D. host_size \<le> a \<and> a < length h)
      \<and> (\<forall>a < length h. a \<notin> D \<longrightarrow> (\<forall>v \<in> cell_vals (h ! a). outside D v)))"

definition kept :: "addr set \<Rightarrow> heap \<Rightarrow> heap \<Rightarrow> bool" where
  "kept D h h' = (length h \<le> length h' \<and> (\<forall>a \<in> D. h' ! a = h ! a))"

text \<open>\<open>writes h h' cur v\<close>: the store \<open>h'\<close> is \<open>h\<close>, or \<open>h\<close> with the cell that \<open>cur\<close> refers to
  replaced by a cell of the same kind that holds no value besides \<open>v\<close> and those it
  held.\<close>

definition writes :: "heap \<Rightarrow> heap \<Rightarrow> val \<Rightarrow> val \<Rightarrow> bool" where
  "writes h h' cur v =
     (h' = h \<or> (\<exists>a ob. cur = VRef a \<and> a < length h \<and> h' = h[a := ob] \<and> kind ob = kind (h ! a)
                   \<and> cell_vals ob \<subseteq> insert v (cell_vals (h ! a))))"

definition handed_in :: "heap \<Rightarrow> val \<Rightarrow> operation \<Rightarrow> val set" where
  "handed_in h source opn =
     (if op_action opn = Set then {op_value opn}
      else if op_action opn = Append \<or> op_action opn = Prepend
      then insert (op_value opn)
             (case get h source (op_path opn) of
                Inr current \<Rightarrow> (case spread h current of Inr xs \<Rightarrow> set xs | Inl e \<Rightarrow> {})
              | Inl e \<Rightarrow> {})
      else {})"

fun valid :: "heap \<Rightarrow> val \<Rightarrow> bool" where
  "valid h (VRef a) = (host_size \<le> a \<and> a < length h)"
| "valid h v = True"

definition wf_heap :: "heap \<Rightarrow> bool" where
  "wf_heap h =
     (host_size \<le> length h
      \<and> (\<forall>a < length h. host_size \<le> a \<longrightarrow> (\<forall>v \<in> held_vals (h ! a). valid h v)))"

fun ref_ge :: "nat \<Rightarrow> val \<Rightarrow> bool" where
  "ref_ge n (VRef a) = (n \<le> a)"
| "ref_ge n v = True"

definition refs_ge :: "nat \<Rightarrow> obj \<Rightarrow> bool" where
  "refs_ge n ob = (\<forall>v \<in> held_vals ob. ref_ge n v)"

definition fresh_closed :: "nat \<Rightarrow> heap \<Rightarrow> bool" where
  "fresh_closed n h = (\<forall>a \<in> {n..<length h}. refs_ge n (h ! a))"



fun slot_holds :: "(val \<Rightarrow> bool) \<Rightarrow> pkey \<times> slot \<Rightarrow> bool" where
  "slot_holds P (k, Data v w e c) = P v"
| "slot_holds P (k, Accessor acc c) = True"


definition cell_valid :: "heap \<Rightarrow> obj \<Rightarrow> bool" where
  "cell_valid h ob = list_all (slot_holds (valid h)) (props ob)"

text \<open>\<open>chain_in n B h v\<close>: the prototype chain that starts at the value \<open>v\<close> ends after at
  most \<open>n\<close> cells, all of them at addresses below \<open>B\<close>.\<close>

fun chain_in :: "nat \<Rightarrow> nat \<Rightarrow> heap \<Rightarrow> val \<Rightarrow> bool" where
  "chain_in 0 B h v = (\<not> is_object v)"
| "chain_in (Suc n) B h v =
     (case v of VRef a \<Rightarrow> a < B \<and> chain_in n B h (proto (h ! a)) | _ \<Rightarrow> True)"

text \<open>\<open>own_route h cur q\<close>: the keys of \<open>q\<close> walked from \<open>cur\<close> through own data properties
  of data cells only; the value arrived at, or \<open>None\<close> when a key is not an own data
  property of a data cell.\<close>

fun own_route :: "heap \<Rightarrow> val \<Rightarrow> key list \<Rightarrow> val option" where
  "own_route h cur [] = Some cur"
| "own_route h cur (k # ks) =
     (case cur of
        VRef a \<Rightarrow>
          if host_size \<le> a \<and> a < length h
          then (case own (h ! a) (to_pkey k) of
                  Some (Data x w e c) \<Rightarrow> own_route h x ks
                | _ \<Rightarrow> None)
          else None
      | _ \<Rightarrow> None)"

text \<open>The store after the loop of \<open>set\<close> has created a container for \<open>nextKey\<close> and
  attached it at key \<open>k\<close> of the cell \<open>a\<close>.\<close>

definition materialise :: "heap \<Rightarrow> addr \<Rightarrow> key \<Rightarrow> key \<Rightarrow> heap" where
  "materialise h a k nextKey =
     (h @ [new_container nextKey])[a := put_prop (h ! a) (to_pkey k) (VRef (length h))]"

section \<open>Properties\<close>

lemma intrinsic_host [simp]:
  "object_proto < host_size" "array_proto < host_size" "function_proto < host_size"
  "string_proto < host_size" "number_proto < host_size" "boolean_proto < host_size"
  by (simp_all add: object_proto_def array_proto_def function_proto_def string_proto_def
      number_proto_def boolean_proto_def host_size_def)

lemma outside_prim [simp]:
  "outside D VUndefined" "outside D VNull" "outside D (VBool b)" "outside D (VNum n)"
  "outside D (VStr s)"
  by (simp_all add: outside_def)

lemma outside_ref [simp]: "outside D (VRef a) = (a \<notin> D)"
  by (simp add: outside_def)



lemma kept_refl [simp]: "kept D h h"
  by (simp add: kept_def)


lemma sealedD:
  "sealed D h \<Longrightarrow> a < length h \<Longrightarrow> a \<notin> D \<Longrightarrow> v \<in> cell_vals (h ! a) \<Longrightarrow> outside D v"
  by (simp add: sealed_def)

lemma cell_vals_empty [simp]: "cell_vals (Obj k p n []) = {p}"
  by (simp add: cell_vals_def held_vals_def)








lemma writes_refl [simp]: "writes h h cur v"
  by (simp add: writes_def)




lemma held_vals_mono: "set ps \<subseteq> set qs \<Longrightarrow> held_vals (Obj k p n ps) \<subseteq> held_vals (Obj k' p' n' qs)"
  by (fastforce simp: held_vals_def)

lemma cell_vals_Obj: "cell_vals (Obj k p n ps) = insert p (held_vals (Obj k p n ps))"
  by (simp add: cell_vals_def)

lemma held_vals_props: "held_vals (Obj k p n (props ob)) = held_vals ob"
  by (simp add: held_vals_def)


lemma kind_put_prop [simp]: "kind (put_prop ob pk v) = kind ob"
  by (simp add: put_prop_def)








lemma writes_length: "writes h h' cur v \<Longrightarrow> length h' = length h"
  by (auto simp: writes_def)


























lemma handed_in_value:
  "op_action opn \<in> {Set, Append, Prepend} \<Longrightarrow> op_value opn \<in> handed_in h source opn"
  by (auto simp: handed_in_def)




lemma reach_outside:
  assumes "sealed D h" and "outside D v"
  shows "reach h v \<inter> D = {}"
proof -
  have "a \<notin> D" if "a \<in> reach h v" for a
    using that
  proof induction
    case (reach_root a)
    with assms(2) show ?case by simp
  next
    case (reach_step b c)
    then have "VRef c \<in> cell_vals (h ! b)" by (simp add: cell_vals_def)
    with reach_step sealedD [OF assms(1)] show ?case by (metis outside_ref)
  qed
  then show ?thesis by auto
qed

subsection \<open>The batch runner\<close>

lemma apply_loop_strict_mason:
  "apply_loop host True source i ops result (m, h) = (r, m', h') \<Longrightarrow> m' = m"
proof (induction ops arbitrary: i result h)
  case Nil
  then show ?case by simp
next
  case (Cons opn ops)
  obtain r1 h1 where ex: "executeOperation host h result opn = (r1, h1)"
    by (cases "executeOperation host h result opn") auto
  show ?case
  proof (cases r1)
    case (Inl e)
    with Cons.prems ex show ?thesis by simp
  next
    case (Inr res)
    with Cons.prems ex have "apply_loop host True source (Suc i) ops res (m, h1) = (r, m', h')"
      by simp
    then show ?thesis by (rule Cons.IH)
  qed
qed

lemma apply_loop_prefix:
  "run_ops host h result xs = (Inr result', h') \<Longrightarrow>
   apply_loop host str source i (xs @ ys) result (m, h) =
   apply_loop host str source (i + length xs) ys result' (m, h')"
proof (induction xs arbitrary: i result h)
  case Nil
  then show ?case by simp
next
  case (Cons opn xs)
  obtain r1 h1 where ex: "executeOperation host h result opn = (r1, h1)"
    by (cases "executeOperation host h result opn") auto
  show ?case
  proof (cases r1)
    case (Inl e)
    with Cons.prems ex show ?thesis by simp
  next
    case (Inr res)
    with Cons.prems ex have "run_ops host h1 res xs = (Inr result', h')" by simp
    from Cons.IH [OF this, of "Suc i"] ex Inr show ?thesis by simp
  qed
qed

lemma apply_loop_first_failure:
  assumes "k < length ops"
    and "run_ops host h result (take k ops) = (Inr rk, hk)"
    and "executeOperation host hk rk (ops ! k) = (Inl e, hk')"
  shows "apply_loop host str source 0 ops result (m, h) =
     (if str then (Inl (Error (message host e)), m, hk')
      else (Inr source,
            m\<lparr>errors := errors m @ [\<lparr>index = k, operation = ops ! k, reason = message host e\<rparr>]\<rparr>,
            hk'))"
proof -
  have split: "ops = take k ops @ (ops ! k) # drop (Suc k) ops"
    using assms(1) by (simp add: id_take_nth_drop)
  have "apply_loop host str source 0 ops result (m, h) =
        apply_loop host str source 0 (take k ops @ (ops ! k) # drop (Suc k) ops) result (m, h)"
    using split by simp
  also have "\<dots> = apply_loop host str source k ((ops ! k) # drop (Suc k) ops) rk (m, hk)"
    using apply_loop_prefix [OF assms(2), of str source 0] assms(1) by (simp add: min_def)
  also have "\<dots> = (if str then (Inl (Error (message host e)), m, hk')
      else (Inr source,
            m\<lparr>errors := errors m @ [\<lparr>index = k, operation = ops ! k, reason = message host e\<rparr>]\<rparr>,
            hk'))"
    using assms(3) by simp
  finally show ?thesis .
qed

lemma strict_of_cases [simp]:
  "strict_of None = True"
  "strict_of (Some \<lparr>strict = None\<rparr>) = True"
  "strict_of (Some \<lparr>strict = Some b\<rparr>) = b"
  by (simp_all add: strict_of_def)

subsection \<open>A copy shows the same tree\<close>

lemma deref_clone:
  "host_size \<le> a \<Longrightarrow> a < length h \<Longrightarrow>
   deref (h @ map (copy_obj n) (drop host_size h)) (a + (length h - host_size)) = copy_obj n (h ! a)"
proof -
  assume a: "host_size \<le> a" "a < length h"
  let ?i = "a + (length h - host_size)"
  have i: "length h \<le> ?i" "?i - length h = a - host_size" "a - host_size < length h - host_size"
    "host_size + (a - host_size) = a"
    using a by simp_all
  have "?i < length (h @ map (copy_obj n) (drop host_size h))" using a by simp
  then have "deref (h @ map (copy_obj n) (drop host_size h)) ?i =
             (h @ map (copy_obj n) (drop host_size h)) ! ?i"
    by (simp only: deref_def if_True)
  also have "\<dots> = map (copy_obj n) (drop host_size h) ! (a - host_size)"
    using i(1,2) by (simp only: nth_append) simp
  also have "\<dots> = copy_obj n (h ! a)"
    using i(3,4) a by (simp add: nth_drop)
  finally show ?thesis .
qed

lemma copied_copy_slot: "copied q \<Longrightarrow> copied (copy_slot n q)"
  by (cases "(n, q)" rule: copy_slot.cases) auto

lemma held_copy_slot: "copied q \<Longrightarrow> held (snd (copy_slot n q)) = shift_val n (held (snd q))"
  by (cases "(n, q)" rule: copy_slot.cases) auto

lemma fst_copy_slot [simp]: "fst (copy_slot n q) = fst q"
  by (cases "(n, q)" rule: copy_slot.cases) auto

lemma filter_copied_copy:
  "filter copied (map (copy_slot n) (filter copied ps)) = map (copy_slot n) (filter copied ps)"
  by (induction ps) (auto simp: copied_copy_slot)

lemma copied_held: "copied q \<Longrightarrow> q \<in> set ps \<Longrightarrow> held (snd q) \<in> held_vals (Obj k p n ps)"
  by (cases q rule: copied.cases) (auto simp: held_vals_def)

lemma wf_heap_held:
  "wf_heap h \<Longrightarrow> valid h (VRef a) \<Longrightarrow> copied q \<Longrightarrow> q \<in> set (props (h ! a))
   \<Longrightarrow> valid h (held (snd q))"
proof -
  assume a: "wf_heap h" "valid h (VRef a)" "copied q" "q \<in> set (props (h ! a))"
  have "held (snd q) \<in> held_vals (h ! a)"
    using copied_held [OF a(3,4), of "kind (h ! a)" "proto (h ! a)" "alen (h ! a)"]
    by (simp add: held_vals_def)
  with a(1,2) show ?thesis unfolding wf_heap_def by auto
qed

lemma view_append:
  "wf_heap h \<Longrightarrow> valid h v \<Longrightarrow> view d (h @ xs) v = view d h v"
proof (induction d arbitrary: v)
  case 0
  then show ?case by (cases v) simp_all
next
  case (Suc d)
  show ?case
  proof (cases v)
    case (VRef a)
    with Suc.prems have a: "a < length h" by simp
    have "view d (h @ xs) (held (snd q)) = view d h (held (snd q))"
      if "q \<in> set (filter copied (props (h ! a)))" for q
      using that Suc.IH [OF Suc.prems(1)] wf_heap_held [OF Suc.prems(1)] Suc.prems(2) VRef
      by simp
    then have "map (\<lambda>p. (fst p, view d (h @ xs) (held (snd p)))) (filter copied (props (h ! a))) =
               map (\<lambda>p. (fst p, view d h (held (snd p)))) (filter copied (props (h ! a)))"
      by simp
    then show ?thesis using VRef a by (simp add: deref_def nth_append)
  qed simp_all
qed

lemma copy_obj_sel [simp]:
  "kind (copy_obj n ob) = kind ob"
  "alen (copy_obj n ob) = alen ob"
  "proto (copy_obj n ob) = std_proto (kind ob)"
  "props (copy_obj n ob) = map (copy_slot n) (filter copied (props ob))"
  by (simp_all add: copy_obj_def)

lemma view_clone:
  "wf_heap h \<Longrightarrow> valid h v \<Longrightarrow>
   view d (h @ map (copy_obj (length h - host_size)) (drop host_size h))
     (shift_val (length h - host_size) v) = view d h v"
proof (induction d arbitrary: v)
  case 0
  then show ?case by (cases v) simp_all
next
  case (Suc d)
  let ?n = "length h - host_size"
  let ?h1 = "h @ map (copy_obj ?n) (drop host_size h)"
  show ?case
  proof (cases v)
    case (VRef a)
    with Suc.prems have a: "host_size \<le> a" "a < length h" by simp_all
    have d: "deref ?h1 (a + ?n) = copy_obj ?n (h ! a)" using a by (rule deref_clone)
    have "view d ?h1 (held (snd (copy_slot ?n q))) = view d h (held (snd q))"
      if "q \<in> set (filter copied (props (h ! a)))" for q
      using that Suc.IH [OF Suc.prems(1)] wf_heap_held [OF Suc.prems(1)] Suc.prems(2) VRef
      by (simp add: held_copy_slot)
    then have m: "map (\<lambda>p. (fst p, view d ?h1 (held (snd p))))
                 (map (copy_slot ?n) (filter copied (props (h ! a)))) =
               map (\<lambda>p. (fst p, view d h (held (snd p)))) (filter copied (props (h ! a)))"
      by (simp add: comp_def)
    have sv: "shift_val ?n v = VRef (a + ?n)" using VRef a by simp
    have "view (Suc d) ?h1 (VRef (a + ?n)) =
          TNode (kind (h ! a)) (alen (h ! a))
            (map (\<lambda>p. (fst p, view d ?h1 (held (snd p))))
               (map (copy_slot ?n) (filter copied (props (h ! a)))))"
      by (simp only: view.simps d copy_obj_sel filter_copied_copy)
    also have "\<dots> = view (Suc d) h (VRef a)"
      using a by (simp only: m view.simps) (simp add: deref_def)
    finally show ?thesis using sv VRef by simp
  qed simp_all
qed


lemma ref_ge_shift_val: "valid h v \<Longrightarrow> ref_ge (length h) (shift_val (length h - host_size) v)"
  by (cases v) auto

lemma fresh_closed_clone:
  assumes "wf_heap h"
  shows "fresh_closed (length h) (h @ map (copy_obj (length h - host_size)) (drop host_size h))"
proof -
  let ?n = "length h - host_size"
  have "refs_ge (length h) (copy_obj ?n (h ! a))" if a: "host_size \<le> a" "a < length h" for a
    unfolding refs_ge_def
  proof
    fix x assume "x \<in> held_vals (copy_obj ?n (h ! a))"
    then obtain k w e c where "(k, Data x w e c) \<in> set (props (copy_obj ?n (h ! a)))"
      unfolding held_vals_def by blast
    then have "(k, Data x w e c) \<in> copy_slot ?n ` set (filter copied (props (h ! a)))"
      by (simp add: copy_obj_def)
    then obtain q where q: "q \<in> set (props (h ! a))" "copied q" "copy_slot ?n q = (k, Data x w e c)"
      by auto
    from held_copy_slot [OF q(2), of ?n] q(3) have "x = shift_val ?n (held (snd q))" by simp
    moreover have "valid h (held (snd q))"
      using wf_heap_held [OF assms _ q(2,1)] a by simp
    ultimately show "ref_ge (length h) x" by (simp add: ref_ge_shift_val)
  qed
  then show ?thesis
    using assms by (auto simp: fresh_closed_def nth_append wf_heap_def)
qed

lemma length_host_objects [simp]: "length host_objects = 16"
  by (simp add: host_objects_def)

lemmas host_simps = host_objects_def object_proto_def array_proto_def function_proto_def
  string_proto_def number_proto_def boolean_proto_def array_splice_def array_values_def
  builtin_def fn_def host_size_def

lemmas exec_simps = clone_def executeOperation_def append_op_def set_at_def delete_op_def
  validateAppendable_def nullish_def deref_def parse_index_def
  is_digit_def array_of_def enumerate_eq_zip put_prop_def path_text_def
  not_appendable_msg_def new_container_def js_in_def js_get_def js_set_def has_property_def
  get_prop_def set_prop_def slot_of_def own_def define_own_def spread_def copy_obj_def
  map_cell_def seq_cell_def field_def elem_def root_deletion_msg_def


lemma ex_clone_fst: "fst (clone ex_store (VRef 16)) = VRef 19"
  by (simp add: clone_def ex_store_def host_size_def)

lemma ex_run:
  "run_ops ex_host (snd (clone ex_store (VRef 16))) (VRef 19) (take 1 ex_ops) =
     (Inr (VRef 26), snd (run_ops ex_host (snd (clone ex_store (VRef 16))) (VRef 19) (take 1 ex_ops)))"
  by (simp add: ex_store_def ex_ops_def exec_simps host_simps)

lemma ex_fail:
  "executeOperation ex_host
      (snd (run_ops ex_host (snd (clone ex_store (VRef 16))) (VRef 19) (take 1 ex_ops)))
      (VRef 26) (ex_ops ! 1) =
     (Inl (Error ''Target at path items is not an array or string''),
      snd (run_ops ex_host (snd (clone ex_store (VRef 16))) (VRef 19) (take 1 ex_ops)))"
  by (simp add: ex_store_def ex_ops_def exec_simps host_simps)

lemma leak_clone: "clone items_store (VRef 16) = (VRef 18, snd (clone items_store (VRef 16)))"
  by (simp add: clone_def items_store_def host_size_def)




subsection \<open>Claims C10, C1 and C5: the failure policy of apply\<close>

text \<open>C10: after an \<open>apply\<close> call in strict mode that raises, \<open>getErrors\<close> returns the
  empty list, whatever the record held before the call.\<close>

theorem strict_failure_leaves_errors_empty:
  assumes "strict_of cfg"
    and "apply_ops host (m, h) source ops cfg = (Inl e, m', h')"
  shows "getErrors m' = []"
proof -
  from assms obtain h0 r0 where
    "apply_loop host True source 0 ops r0 (m\<lparr>errors := []\<rparr>, h0) = (Inl e, m', h')"
    by (auto simp: apply_ops_def split: prod.splits)
  then have "m' = m\<lparr>errors := []\<rparr>" by (rule apply_loop_strict_mason)
  then show ?thesis by (simp add: getErrors_def)
qed

lemma ex_first_failure:
  "apply_loop ex_host str (VRef 16) 0 ex_ops (VRef 19) (m, snd (clone ex_store (VRef 16))) =
     (if str then (Inl (Error ''Target at path items is not an array or string''), m,
                   snd (run_ops ex_host (snd (clone ex_store (VRef 16))) (VRef 19) (take 1 ex_ops)))
      else (Inr (VRef 16),
            m\<lparr>errors := errors m @ [\<lparr>index = 1, operation = ex_ops ! 1,
               reason = ''Target at path items is not an array or string''\<rparr>]\<rparr>,
            snd (run_ops ex_host (snd (clone ex_store (VRef 16))) (VRef 19) (take 1 ex_ops))))"
  using apply_loop_first_failure [OF _ ex_run ex_fail, of str "VRef 16" m]
  by (simp add: ex_ops_def)

theorem strict_failure_leaves_errors_empty_witness:
  "strict_of None
   \<and> fst (apply_ops ex_host (ex_mason, ex_store) (VRef 16) ex_ops None) =
       Inl (Error ''Target at path items is not an array or string'')
   \<and> getErrors (fst (snd (apply_ops ex_host (ex_mason, ex_store) (VRef 16) ex_ops None))) = []"
proof -
  let ?r = "apply_ops ex_host (ex_mason, ex_store) (VRef 16) ex_ops None"
  have f: "fst ?r = Inl (Error ''Target at path items is not an array or string'')"
    using ex_clone_fst by (simp add: apply_ops_def case_prod_beta ex_first_failure)
  then have r: "?r = (Inl (Error ''Target at path items is not an array or string''),
                 fst (snd ?r), snd (snd ?r))"
    by (metis prod.collapse)
  have s: "strict_of None" by simp
  from strict_failure_leaves_errors_empty [OF s r] f s show ?thesis by simp
qed






lemma slot_holds_held:
  "list_all (slot_holds P) (props ob) \<Longrightarrow> v \<in> held_vals ob \<Longrightarrow> P v"
  by (fastforce simp: held_vals_def list_all_iff)



lemma wf_heapI:
  assumes "host_size \<le> length h" and "list_all (cell_valid h) (drop host_size h)"
  shows "wf_heap h"
  unfolding wf_heap_def
proof (intro conjI allI impI ballI)
  fix a v assume a: "a < length h" "host_size \<le> a" "v \<in> held_vals (h ! a)"
  then have "h ! a = drop host_size h ! (a - host_size)" "a - host_size < length (drop host_size h)"
    by simp_all
  with assms(2) have "cell_valid h (h ! a)" by (metis list_all_length)
  with a(3) show "valid h v" by (auto simp: cell_valid_def dest: slot_holds_held)
qed (rule assms(1))



lemma ex_store_wf: "wf_heap ex_store"
  by (rule wf_heapI)
     (simp_all add: ex_store_def host_size_def cell_valid_def map_cell_def seq_cell_def
       field_def array_of_def enumerate_eq_zip)





subsection \<open>Claim C8: remove at the root and of an absent field\<close>



subsection \<open>Claim C9: the empty batch\<close>

text \<open>C9: \<open>apply\<close> with an empty operation list returns a copy: a value that shows the
  same tree as the document at every depth, that is not the same reference, and none of
  whose cells is a cell of the store before the call; the error list is empty.\<close>

theorem apply_empty_is_fresh_copy:
  assumes "wf_heap h" and "valid h d"
  shows "\<exists>r h'. apply_ops host (m, h) d [] cfg = (Inr r, \<lparr>errors = []\<rparr>, h')
           \<and> structurally_equal h' r h' d
           \<and> \<not> same_reference r d
           \<and> ref_ge (length h) r \<and> fresh_closed (length h) h'
           \<and> take (length h) h' = h"
proof -
  let ?n = "length h - host_size"
  let ?h' = "h @ map (copy_obj ?n) (drop host_size h)"
  have ap: "apply_ops host (m, h) d [] cfg = (Inr (shift_val ?n d), \<lparr>errors = []\<rparr>, ?h')"
    by (simp add: apply_ops_def clone_def)
  have "view k ?h' (shift_val ?n d) = view k ?h' d" for k
    using assms by (simp add: view_clone view_append)
  then have se: "structurally_equal ?h' (shift_val ?n d) ?h' d"
    by (simp add: structurally_equal_def)
  have nr: "\<not> same_reference (shift_val ?n d) d"
    using assms by (cases d) (auto simp: wf_heap_def)
  show ?thesis
    using ap se nr ref_ge_shift_val [OF assms(2)] fresh_closed_clone [OF assms(1)] by simp
qed

theorem apply_empty_is_fresh_copy_witness:
  "wf_heap ex_store \<and> valid ex_store (VRef 16)
   \<and> (\<exists>r h'. apply_ops ex_host (ex_mason, ex_store) (VRef 16) [] None =
                 (Inr r, \<lparr>errors = []\<rparr>, h')
         \<and> structurally_equal h' r h' (VRef 16) \<and> \<not> same_reference r (VRef 16))"
proof -
  have v: "valid ex_store (VRef 16)" by (simp add: ex_store_def host_size_def)
  from apply_empty_is_fresh_copy [OF ex_store_wf v, of ex_host ex_mason None] ex_store_wf v
  show ?thesis by blast
qed

lemma find_slot_transfer:
  "chain_in n B h v \<Longrightarrow> B \<le> length h \<Longrightarrow> B \<le> length h' \<Longrightarrow> \<forall>b < B. h' ! b = h ! b
   \<Longrightarrow> n \<le> f \<Longrightarrow> n \<le> f'
   \<Longrightarrow> find_slot (Suc f') h' v pk = find_slot (Suc f) h v pk"
proof (induction n arbitrary: v f f')
  case 0
  then show ?case by (cases v) simp_all
next
  case (Suc n)
  show ?case
  proof (cases v)
    case (VRef a)
    with Suc.prems(1) have a: "a < B" "chain_in n B h (proto (h ! a))" by simp_all
    from a(1) Suc.prems(2,3,4) have d: "deref h' a = h ! a" "deref h a = h ! a"
      by (simp_all add: deref_def)
    from Suc.prems(5,6) obtain g g' where g: "f = Suc g" "f' = Suc g'" "n \<le> g" "n \<le> g'"
      by (metis Suc_le_D Suc_le_mono)
    from Suc.IH [OF a(2) Suc.prems(2,3,4) g(3,4)]
    have "find_slot (Suc g') h' (proto (h ! a)) pk = find_slot (Suc g) h (proto (h ! a)) pk" .
    then have r: "find_slot f' h' (proto (h ! a)) pk = find_slot f h (proto (h ! a)) pk"
      by (simp only: g(1,2))
    have "find_slot (Suc f') h' v pk =
          (case own (h ! a) pk of Some s \<Rightarrow> Some s
           | None \<Rightarrow> find_slot f' h' (proto (h ! a)) pk)"
      by (simp only: find_slot.simps VRef val.case d)
    moreover have "find_slot (Suc f) h v pk =
          (case own (h ! a) pk of Some s \<Rightarrow> Some s
           | None \<Rightarrow> find_slot f h (proto (h ! a)) pk)"
      by (simp only: find_slot.simps VRef val.case d)
    ultimately show ?thesis by (simp only: r)
  qed simp_all
qed

lemma slot_of_ref: "slot_of h (VRef a) pk = find_slot (Suc (length h)) h (VRef a) pk"
  by (simp add: slot_of_def)

lemma slot_of_alloc:
  "chain_in (length h) (length h) h (VRef a) \<Longrightarrow>
   slot_of (h @ [ob]) (VRef a) pk = slot_of h (VRef a) pk"
  unfolding slot_of_ref
  by (rule find_slot_transfer [where n = "length h" and B = "length h"])
     (simp_all add: nth_append)

lemma slot_of_own:
  "a < length h \<Longrightarrow> own (h ! a) pk = Some s \<Longrightarrow> slot_of h (VRef a) pk = Some s"
  by (simp add: slot_of_def deref_def)

lemma own_put_prop_new:
  "own ob pk = None \<Longrightarrow> own (put_prop ob pk v) pk = Some (Data v True True True)"
  by (auto simp: own_def put_prop_def update_conv' split: if_splits)

lemma materialise_step:
  assumes "a < length h"
    and "slot_of h (VRef a) (to_pkey k) = None"
    and "chain_in (length h) (length h) h (VRef a)"
  shows "set_loop host h (VRef a) (k # k' # ks) =
           set_loop host (materialise h a k k') (VRef (length h)) (k' # ks)"
    and "own (materialise h a k k' ! a) (to_pkey k) = Some (Data (VRef (length h)) True True True)"
    and "materialise h a k k' ! length h = new_container k'"
proof -
  let ?h0 = "h @ [new_container k']"
  let ?pk = "to_pkey k"
  have o: "own (h ! a) ?pk = None"
    using assms(1,2) by (simp add: slot_of_def deref_def split: option.splits)
  then have nl: "\<not> (kind (h ! a) = Array \<and> ?pk = PName ''length'')"
    by (auto simp: own_def)
  have s0: "slot_of ?h0 (VRef a) ?pk = None"
    using slot_of_alloc [OF assms(3)] assms(2) by simp
  have d0: "deref ?h0 a = h ! a" using assms(1) by (simp add: deref_def nth_append)
  have w: "js_set host ?h0 (VRef a) k (VRef (length h)) = (None, materialise h a k k')"
    using s0 d0 nl assms(1)
    by (auto simp: js_set_def set_prop_def nullish_def define_own_def materialise_def)
  show own: "own (materialise h a k k' ! a) ?pk = Some (Data (VRef (length h)) True True True)"
    using assms(1) o by (simp add: materialise_def own_put_prop_new)
  have "a < length (materialise h a k k')" using assms(1) by (simp add: materialise_def)
  from slot_of_own [OF this own]
  have g: "js_get (materialise h a k k') (VRef a) k = Inr (VRef (length h))"
    by (simp add: js_get_def get_prop_def nullish_def)
  show "set_loop host h (VRef a) (k # k' # ks) =
           set_loop host (materialise h a k k') (VRef (length h)) (k' # ks)"
    using assms(2) w g by (simp add: js_in_def has_property_def)
  show "materialise h a k k' ! length h = new_container k'"
    using assms(1) by (simp add: materialise_def)
qed

lemma own_route_loop:
  "own_route h cur q = Some x \<Longrightarrow> set_loop host h cur (q @ [k]) = (Inr x, h)"
proof (induction q arbitrary: cur)
  case Nil
  then show ?case by simp
next
  case (Cons k0 q)
  from Cons.prems obtain a y w e c where a: "cur = VRef a" "host_size \<le> a" "a < length h"
    "own (h ! a) (to_pkey k0) = Some (Data y w e c)" "own_route h y q = Some x"
    by (auto split: val.splits if_splits option.splits slot.splits)
  from slot_of_own [OF a(3,4)]
  have "js_in h k0 cur = Inr True" "js_get h cur k0 = Inr y"
    using a(1) by (simp_all add: js_in_def has_property_def js_get_def get_prop_def nullish_def)
  moreover obtain k1 rest where "q @ [k] = k1 # rest" by (cases q) auto
  ultimately show ?case using Cons.IH [OF a(5)] by simp
qed

lemma own_route_get: "own_route h cur q = Some x \<Longrightarrow> get h cur q = Inr x"
proof (induction q arbitrary: cur)
  case Nil
  then show ?case by simp
next
  case (Cons k0 q)
  from Cons.prems obtain a y w e c where a: "cur = VRef a" "host_size \<le> a" "a < length h"
    "own (h ! a) (to_pkey k0) = Some (Data y w e c)" "own_route h y q = Some x"
    by (auto split: val.splits if_splits option.splits slot.splits)
  from slot_of_own [OF a(3,4)]
  have "js_get h cur k0 = Inr y"
    using a(1) by (simp add: js_get_def get_prop_def nullish_def)
  then show ?case using Cons.IH [OF a(5)] a(1) by (simp add: nullish_def)
qed

lemma set_loop_append:
  "set_loop host h cur (q @ [k]) = (Inr x, h') \<Longrightarrow>
   set_loop host h cur (q @ k # rest) = set_loop host h' x (k # rest)"
proof (induction q arbitrary: h cur)
  case Nil
  then show ?case by simp
next
  case (Cons k0 q)
  obtain k1 r1 where q1: "q @ [k] = k1 # r1" by (cases q) auto
  then have q2: "q @ k # rest = k1 # (r1 @ rest)" by (cases q) auto
  show ?case
  proof (cases "js_in h k0 cur")
    case (Inl e)
    with Cons.prems q1 show ?thesis by simp
  next
    case (Inr present)
    obtain e1 h1 where st: "(if present then (None, h)
          else js_set host (h @ [new_container k1]) cur k0 (VRef (length h))) = (e1, h1)"
      by (cases "if present then (None, h)
          else js_set host (h @ [new_container k1]) cur k0 (VRef (length h))") auto
    show ?thesis
    proof (cases e1)
      case (Some e)
      with Cons.prems q1 Inr st show ?thesis by simp
    next
      case None
      show ?thesis
      proof (cases "js_get h1 cur k0")
        case (Inl e)
        with Cons.prems q1 \<open>js_in h k0 cur = Inr present\<close> st None show ?thesis by simp
      next
        case (Inr y)
        with Cons.prems q1 \<open>js_in h k0 cur = Inr present\<close> st None
        have rec: "set_loop host h1 y (q @ [k]) = (Inr x, h')" by simp
        have "set_loop host h cur ((k0 # q) @ k # rest) =
              set_loop host h cur (k0 # k1 # (r1 @ rest))"
          by (simp only: append_Cons q2)
        also have "\<dots> = set_loop host h1 y (k1 # (r1 @ rest))"
          using \<open>js_in h k0 cur = Inr present\<close> st None Inr by simp
        also have "\<dots> = set_loop host h1 y (q @ k # rest)" by (simp only: q2)
        also have "\<dots> = set_loop host h' x (k # rest)" by (rule Cons.IH [OF rec])
        finally show ?thesis .
      qed
    qed
  qed
qed

end
